theory Spec2Isabelle
  imports Complex_Main "HOL-Library.Multiset" "HOL-Library.AList"
begin

section \<open>Data model\<close>

text \<open>
  The records follow the pydantic models of the repository. Python's \<open>int\<close> is
  \<open>int\<close>, \<open>str\<close> is \<open>string\<close>. Python's \<open>float\<close> is modelled as \<open>real\<close>:
  arithmetic is exact, rounding is not part of the model.
\<close>

text \<open>
  \<open>feddit_client/schemas.py\<close>: \<open>CommentInfo\<close>. The fields \<open>id\<close>, \<open>username\<close> and
  \<open>text\<close> carry the suffix \<open>_c\<close>: the plain names are taken.
\<close>

record CommentInfo =
  id_c :: int
  username_c :: string
  text_c :: string
  created_at :: int

text \<open>\<open>sentiment_analysis/schemas.py\<close>: \<open>SentimentScore\<close>.\<close>

record SentimentScore =
  label :: string
  score :: real

text \<open>\<open>sentiment_analysis/sentiment.py\<close>: the enumeration \<open>Sentiment\<close>.\<close>

datatype Sentiment = POSITIVE | NEGATIVE

text \<open>\<open>sentiment_analysis/schemas.py\<close>: \<open>SentimentAnalysis\<close>.\<close>

record SentimentAnalysis =
  statement :: string
  polarity :: real
  sentiment :: Sentiment

text \<open>
  \<open>api/_schemas.py\<close>: \<open>CommentSentiment\<close>. Its field \<open>polarity\<close> carries the suffix
  \<open>_cs\<close>. \<open>classification\<close> is the string value of the \<open>Sentiment\<close> member.
\<close>

record CommentSentiment =
  comment_id :: int
  comment :: string
  polarity_cs :: real
  classification :: string

text \<open>
  The exceptions the modelled functions raise. The two modules \<open>feddit_client.errors\<close>
  and \<open>sentiment_analysis.errors\<close> both define \<open>BadRequestError\<close>, \<open>NotFoundError\<close>,
  \<open>InternalServerError\<close>, \<open>UnexpectedError\<close> and \<open>ResponseValidationError\<close>; the
  constructors carry the module as a prefix. \<open>ZeroDivisionError\<close>, \<open>KeyError\<close> and
  \<open>ValueError\<close> are Python's own, \<open>ValidationError\<close> is pydantic's, \<open>HTTPException\<close>
  is FastAPI's with its status code and detail, \<open>HTTPError\<close> is what the transport
  (httpx) raises. Messages are kept only where the code puts data in them.
\<close>

datatype error =
    InvalidPolarityError real
  | ModelBadRequestError
  | ModelNotFoundError
  | ModelInternalServerError
  | ModelUnexpectedError
  | ModelResponseValidationError
  | FedditBadRequestError
  | FedditNotFoundError
  | FedditInternalServerError
  | FedditUnexpectedError
  | FedditResponseValidationError
  | ZeroDivisionError
  | KeyError string
  | ValueError
  | ValidationError
  | HTTPException nat string
  | HTTPError

section \<open>Polarity computation and classification\<close>

text \<open>
  \<open>_analyzer.py\<close>, \<open>_compute_polarity\<close>:
  \<^verbatim>\<open>return (positive - negative) / (positive + neutral + negative)\<close>
  Python's float division raises \<open>ZeroDivisionError\<close> on a zero divisor; the function
  has no guard of its own.
\<close>

definition compute_polarity :: "real \<Rightarrow> real \<Rightarrow> real \<Rightarrow> error + real" where
  "compute_polarity positive neutral negative =
     (if positive + neutral + negative = 0 then Inl ZeroDivisionError
      else Inr ((positive - negative) / (positive + neutral + negative)))"

text \<open>
  \<open>sentiment.py\<close>, \<open>Sentiment.from_polarity\<close> with \<open>_POL_TH = 0\<close>:
  \<^verbatim>\<open>
  if not -1 <= polarity <= 1:
      raise InvalidPolarityError(polarity)
  return cls.POSITIVE if polarity >= _POL_TH else cls.NEGATIVE
  \<close>
\<close>

definition POL_TH :: real where
  "POL_TH = 0"

definition from_polarity :: "real \<Rightarrow> error + Sentiment" where
  "from_polarity p =
     (if \<not> (-1 \<le> p \<and> p \<le> 1) then Inl (InvalidPolarityError p)
      else Inr (if p \<ge> POL_TH then POSITIVE else NEGATIVE))"

section \<open>Bounded merge of comment batches\<close>

text \<open>\<open>api/_core.py\<close>: the two module constants of the comment query.\<close>

definition QUERY_LIMIT :: nat where
  "QUERY_LIMIT = 25"

definition QUERY_BATCH_SIZE :: nat where
  "QUERY_BATCH_SIZE = 5000"

text \<open>
  The condition of the list comprehension that filters a batch:
  \<^verbatim>\<open>
  (min_datetime is None or comment.created_at >= min_datetime)
  and (max_datetime is None or comment.created_at <= max_datetime)
  \<close>
\<close>

definition in_range :: "int option \<Rightarrow> int option \<Rightarrow> CommentInfo \<Rightarrow> bool" where
  "in_range min_datetime max_datetime c =
     ((case min_datetime of None \<Rightarrow> True | Some m \<Rightarrow> created_at c \<ge> m)
    \<and> (case max_datetime of None \<Rightarrow> True | Some m \<Rightarrow> created_at c \<le> m))"

text \<open>
  \<^verbatim>\<open>xs.sort(key=k, reverse=True)\<close>: Python's sort is stable, also with \<open>reverse=True\<close>,
  so the result is in descending key order and elements with equal keys keep their
  order. That is the stable ascending sort \<open>sort_key\<close> on the negated key.
\<close>

definition sort_reverse :: "('a \<Rightarrow> 'k::{linorder,uminus}) \<Rightarrow> 'a list \<Rightarrow> 'a list" where
  "sort_reverse key xs = sort_key (\<lambda>x. - key x) xs"

text \<open>
  One round of the loop of \<open>_get_all_comments\<close> after the fetch: filter the batch,
  extend the accumulator, sort it newest first, keep the first \<open>_QUERY_LIMIT\<close> entries.
\<close>

definition merge_batch ::
  "int option \<Rightarrow> int option \<Rightarrow> CommentInfo list \<Rightarrow> CommentInfo list \<Rightarrow> CommentInfo list" where
  "merge_batch min_datetime max_datetime comments comment_batch =
     take QUERY_LIMIT
       (sort_reverse created_at
          (comments @ filter (in_range min_datetime max_datetime) comment_batch))"

text \<open>
  \<open>feddit_client/schemas.py\<close>: \<open>SubfedditInfo\<close>, with the suffix \<open>_s\<close> on \<open>id\<close> and
  \<open>username\<close>.
\<close>

record SubfedditInfo =
  id_s :: int
  username_s :: string
  title :: string
  description :: string

text \<open>
  The Feddit client as the core uses it: an object with the three methods
  \<open>get_subfeddit_comments(subfeddit_id, skip, limit)\<close>, \<open>get_subfeddits(skip, limit)\<close>
  and \<open>get_subfeddit_info(subfeddit_id)\<close>. Each is a call to the remote service, so it
  is a parameter of the model; it returns its list or raises.
\<close>

record FedditAPIClient =
  get_subfeddit_comments :: "int \<Rightarrow> nat \<Rightarrow> nat \<Rightarrow> error + CommentInfo list"
  get_subfeddits :: "nat \<Rightarrow> nat \<Rightarrow> error + SubfedditInfo list"
  get_subfeddit_info :: "int \<Rightarrow> error + SubfedditInfo"

text \<open>
  \<open>api/_core.py\<close>, \<open>_get_all_comments\<close>:
  \<^verbatim>\<open>
  skip = 0
  comments = []
  while True:
      comment_batch = await feddit_client.get_subfeddit_comments(
          subfeddit_id, skip=skip, limit=_QUERY_BATCH_SIZE)
      stop = len(comment_batch) < _QUERY_BATCH_SIZE
      comment_batch = [comment for comment in comment_batch if ...]
      comments.extend(comment_batch)
      comments.sort(key=lambda comment: comment.created_at, reverse=True)
      comments = comments[:_QUERY_LIMIT]
      if stop:
          break
      skip += _QUERY_BATCH_SIZE
  return comments
  \<close>
  The loop ends only when the client returns a short batch, so the function is partial:
  \<open>None\<close> is a run that never returns, \<open>Some (Inl e)\<close> a raised exception.
\<close>

partial_function (option) get_all_comments_loop ::
  "FedditAPIClient \<Rightarrow> int \<Rightarrow> int option \<Rightarrow> int option
     \<Rightarrow> nat \<Rightarrow> CommentInfo list \<Rightarrow> (error + CommentInfo list) option" where
  "get_all_comments_loop feddit_client subfeddit_id min_datetime max_datetime skip comments =
     (case get_subfeddit_comments feddit_client subfeddit_id skip QUERY_BATCH_SIZE of
        Inl e \<Rightarrow> Some (Inl e)
      | Inr comment_batch \<Rightarrow>
          (let stop = length comment_batch < QUERY_BATCH_SIZE;
               comments' = merge_batch min_datetime max_datetime comments comment_batch
           in if stop then Some (Inr comments')
              else get_all_comments_loop feddit_client subfeddit_id min_datetime max_datetime
                     (skip + QUERY_BATCH_SIZE) comments'))"

definition get_all_comments ::
  "int \<Rightarrow> int option \<Rightarrow> int option \<Rightarrow> FedditAPIClient \<Rightarrow> (error + CommentInfo list) option" where
  "get_all_comments subfeddit_id min_datetime max_datetime feddit_client =
     get_all_comments_loop feddit_client subfeddit_id min_datetime max_datetime 0 []"

text \<open>
  Two notions to state properties of a run. \<open>fetched fetch skip bs\<close>: the paginated
  calls \<open>fetch skip\<close>, \<open>fetch (skip + 5000)\<close>, ... return exactly the batches \<open>bs\<close>, of
  which the last one, and only the last one, is shorter than the batch size.
  \<open>merge_window\<close>: the rounds of the loop applied to a list of batches, whatever their
  sizes.
\<close>

fun fetched :: "(nat \<Rightarrow> nat \<Rightarrow> error + 'a list) \<Rightarrow> nat \<Rightarrow> 'a list list \<Rightarrow> bool" where
  "fetched fetch skip [] = False"
| "fetched fetch skip (b # bs) =
     (fetch skip QUERY_BATCH_SIZE = Inr b
      \<and> (if length b < QUERY_BATCH_SIZE then bs = []
         else fetched fetch (skip + QUERY_BATCH_SIZE) bs))"

definition merge_window ::
  "int option \<Rightarrow> int option \<Rightarrow> CommentInfo list list \<Rightarrow> CommentInfo list" where
  "merge_window min_datetime max_datetime batches =
     foldl (merge_batch min_datetime max_datetime) [] batches"

text \<open>
  Insertion of \<open>y\<close> into a list sorted by \<open>f\<close>, after the elements with the same key:
  what a stable sort does with the last element of its input.
\<close>

fun insr :: "('a \<Rightarrow> 'k::linorder) \<Rightarrow> 'a \<Rightarrow> 'a list \<Rightarrow> 'a list" where
  "insr f y [] = [y]"
| "insr f y (a # as) = (if f a \<le> f y then a # insr f y as else y # a # as)"

section \<open>Validation and processing of the model's outputs\<close>

text \<open>
  \<open>sentiment_analysis/schemas.py\<close>, the validator of \<open>SentimentScore.score\<close>:
  \<^verbatim>\<open>
  if not (0 <= value <= 1):
      raise ValueError("Score must be between 0 and 1")
  return value
  \<close>
\<close>

definition score_must_be_between_0_and_1 :: "real \<Rightarrow> error + real" where
  "score_must_be_between_0_and_1 v =
     (if \<not> (0 \<le> v \<and> v \<le> 1) then Inl ValueError else Inr v)"

text \<open>
  \<open>ModelResponse._validate_required_labels\<close> with \<open>_NLABELS = 3\<close>:
  \<^verbatim>\<open>
  for scores in value:
      if len(scores) != _NLABELS or {score.label for score in scores} != {
          "positive", "negative", "neutral"}:
          raise ValidationError(
              "Outputs must contain the three labels: positive, negative, and neutral")
  return value
  \<close>
  The \<open>raise\<close> is taken as written: it raises the exception it names.
\<close>

definition NLABELS :: nat where
  "NLABELS = 3"

definition validate_required_labels ::
  "SentimentScore list list \<Rightarrow> error + SentimentScore list list" where
  "validate_required_labels v =
     (if \<exists>scores \<in> set v.
           length scores \<noteq> NLABELS
         \<or> set (map label scores) \<noteq> {''positive'', ''negative'', ''neutral''}
      then Inl ValidationError else Inr v)"

text \<open>
  \<open>ModelResponse.model_validate({"outputs": content})\<close>: pydantic validates the items
  of the field first (a \<open>ValueError\<close> of the score validator becomes pydantic's
  \<open>ValidationError\<close>), then runs the validator of the field. The content is the JSON
  body already read as lists of label and score; a body of another shape is outside
  the model.
\<close>

definition model_validate :: "SentimentScore list list \<Rightarrow> error + SentimentScore list list" where
  "model_validate outputs =
     (if \<exists>scores \<in> set outputs. \<exists>s \<in> set scores.
           score_must_be_between_0_and_1 (score s) = Inl ValueError
      then Inl ValidationError
      else validate_required_labels outputs)"

text \<open>The HTTP response of the model API: its status code and its JSON content.\<close>

record Response =
  status_code :: nat
  content :: "SentimentScore list list"

text \<open>
  \<open>_analyzer.py\<close>, \<open>_handle_response\<close>: on status 200 the content is validated and
  \<open>ValidationError\<close> or \<open>ValueError\<close> is re-raised as \<open>ResponseValidationError\<close>; the
  statuses 400, 404 and 500 and every other status raise their own error.
\<close>

definition handle_response :: "Response \<Rightarrow> error + SentimentScore list list" where
  "handle_response response =
     (if status_code response = 200 then
        (case model_validate (content response) of
           Inl e \<Rightarrow> (if e = ValidationError \<or> e = ValueError
                     then Inl ModelResponseValidationError else Inl e)
         | Inr outputs \<Rightarrow> Inr outputs)
      else if status_code response = 400 then Inl ModelBadRequestError
      else if status_code response = 404 then Inl ModelNotFoundError
      else if status_code response = 500 then Inl ModelInternalServerError
      else Inl ModelUnexpectedError)"

text \<open>
  \<open>_analyze_output\<close>:
  \<^verbatim>\<open>
  scores = {score.label: score.score for score in output}
  polarity = _compute_polarity(scores["positive"], scores["neutral"], scores["negative"])
  return SentimentAnalysis(
      statement=statement, polarity=polarity, sentiment=Sentiment.from_polarity(polarity))
  \<close>
  In the dictionary a later entry of a label replaces an earlier one; a missing key
  raises \<open>KeyError\<close>. The validator of \<open>SentimentAnalysis.polarity\<close> runs when the object
  is built, after \<open>from_polarity\<close> has returned.
\<close>

definition scores_dict :: "SentimentScore list \<Rightarrow> string \<rightharpoonup> real" where
  "scores_dict output = map_of (rev (map (\<lambda>s. (label s, score s)) output))"

definition getitem :: "(string \<rightharpoonup> real) \<Rightarrow> string \<Rightarrow> error + real" where
  "getitem d k = (case d k of None \<Rightarrow> Inl (KeyError k) | Some v \<Rightarrow> Inr v)"

definition polarity_must_be_between_minus_1_and_1 :: "real \<Rightarrow> error + real" where
  "polarity_must_be_between_minus_1_and_1 v =
     (if \<not> (-1 \<le> v \<and> v \<le> 1) then Inl ValueError else Inr v)"

definition analyze_output :: "string \<Rightarrow> SentimentScore list \<Rightarrow> error + SentimentAnalysis" where
  "analyze_output st output =
     (let scores = scores_dict output in
      case getitem scores ''positive'' of Inl e \<Rightarrow> Inl e | Inr p \<Rightarrow>
      case getitem scores ''neutral'' of Inl e \<Rightarrow> Inl e | Inr n \<Rightarrow>
      case getitem scores ''negative'' of Inl e \<Rightarrow> Inl e | Inr g \<Rightarrow>
      case compute_polarity p n g of Inl e \<Rightarrow> Inl e | Inr pol \<Rightarrow>
      case from_polarity pol of Inl e \<Rightarrow> Inl e | Inr sen \<Rightarrow>
      case polarity_must_be_between_minus_1_and_1 pol of
        Inl e \<Rightarrow> Inl ValidationError
      | Inr v \<Rightarrow> Inr \<lparr>statement = st, polarity = v, sentiment = sen\<rparr>)"

text \<open>
  \<open>_process_outputs\<close> for a list of statements:
  \<^verbatim>\<open>
  return [_analyze_output(statement, output)
          for statement, output in zip(statements, outputs, strict=False)]
  \<close>
  \<open>zip\<close> with \<open>strict=False\<close> stops at the end of the shorter list, as \<open>zip\<close> of HOL
  does. The first exception of an element ends the comprehension.
\<close>

fun analyze_pairs :: "(string \<times> SentimentScore list) list \<Rightarrow> error + SentimentAnalysis list" where
  "analyze_pairs [] = Inr []"
| "analyze_pairs (so # rest) =
     (case analyze_output (fst so) (snd so) of
        Inl e \<Rightarrow> Inl e
      | Inr a \<Rightarrow> (case analyze_pairs rest of Inl e \<Rightarrow> Inl e | Inr as \<Rightarrow> Inr (a # as)))"

definition process_outputs ::
  "string list \<Rightarrow> SentimentScore list list \<Rightarrow> error + SentimentAnalysis list" where
  "process_outputs statements outputs = analyze_pairs (zip statements outputs)"

text \<open>
  \<open>SentimentAnalyzer\<close>: its default timeout and the HTTP POST to the model API. The
  POST is a call to a remote service: it takes the state \<open>'w\<close> of that service and
  the statements, and returns the response or raises, with the new state.
\<close>

record 'w SentimentAnalyzer =
  timeout_default :: real
  post :: "'w \<Rightarrow> string list \<Rightarrow> real \<Rightarrow> (error + Response) \<times> 'w"

definition choose_timeout :: "'w SentimentAnalyzer \<Rightarrow> real option \<Rightarrow> real" where
  "choose_timeout self provided = (case provided of Some t \<Rightarrow> t | None \<Rightarrow> timeout_default self)"

definition request_sentiment ::
  "'w SentimentAnalyzer \<Rightarrow> string list \<Rightarrow> real option \<Rightarrow> 'w
     \<Rightarrow> (error + SentimentScore list list) \<times> 'w" where
  "request_sentiment self statements timeout w =
     (case post self w statements (choose_timeout self timeout) of
        (Inl e, w') \<Rightarrow> (Inl e, w')
      | (Inr response, w') \<Rightarrow> (handle_response response, w'))"

definition analyze_sentiment ::
  "'w SentimentAnalyzer \<Rightarrow> string list \<Rightarrow> real option \<Rightarrow> 'w
     \<Rightarrow> (error + SentimentAnalysis list) \<times> 'w" where
  "analyze_sentiment self statements timeout w =
     (case request_sentiment self statements timeout w of
        (Inl e, w') \<Rightarrow> (Inl e, w')
      | (Inr model_response, w') \<Rightarrow> (process_outputs statements model_response, w'))"

section \<open>The orchestrator\<close>

text \<open>The string value of a member of the \<open>StrEnum\<close>.\<close>

fun value_of :: "Sentiment \<Rightarrow> string" where
  "value_of POSITIVE = ''positive''"
| "value_of NEGATIVE = ''negative''"

text \<open>
  \<open>api/_core.py\<close>, \<open>analyze_comments_sentiment\<close>. The argument \<open>sentiment_analyzer\<close>
  is used through its method \<open>analyze_sentiment(statements, timeout)\<close> only; the model
  takes that method, a function on the state \<open>'w\<close> of the scoring service.
  \<^verbatim>\<open>
  comments = await _get_all_comments(subfeddit_id, min_datetime, max_datetime, feddit_client)
  if not comments:
      return []
  comments_sentiment = await sentiment_analyzer.analyze_sentiment(
      [comment.text for comment in comments], 60)
  responses = [
      CommentSentiment(comment_id=comment.id, comment=comment.text,
                       polarity=sentiment.polarity,
                       classification=sentiment.sentiment.value)
      for comment, sentiment in zip(comments, comments_sentiment, strict=False)]
  if sort_by_polarity:
      responses.sort(key=lambda comment: comment.polarity, reverse=True)
  return responses
  \<close>
\<close>

definition make_response :: "CommentInfo \<times> SentimentAnalysis \<Rightarrow> CommentSentiment" where
  "make_response cs =
     \<lparr>comment_id = id_c (fst cs), comment = text_c (fst cs),
      polarity_cs = polarity (snd cs), classification = value_of (sentiment (snd cs))\<rparr>"

definition analyze_comments_sentiment ::
  "int \<Rightarrow> int option \<Rightarrow> int option \<Rightarrow> bool \<Rightarrow> FedditAPIClient
     \<Rightarrow> (string list \<Rightarrow> real option \<Rightarrow> 'w \<Rightarrow> (error + SentimentAnalysis list) \<times> 'w)
     \<Rightarrow> 'w \<Rightarrow> ((error + CommentSentiment list) \<times> 'w) option" where
  "analyze_comments_sentiment subfeddit_id min_datetime max_datetime sort_by_polarity
       feddit_client sentiment_analyzer w =
     (case get_all_comments subfeddit_id min_datetime max_datetime feddit_client of
        None \<Rightarrow> None
      | Some (Inl e) \<Rightarrow> Some (Inl e, w)
      | Some (Inr comments) \<Rightarrow>
          if comments = [] then Some (Inr [], w)
          else
            (case sentiment_analyzer (map text_c comments) (Some 60) w of
               (Inl e, w') \<Rightarrow> Some (Inl e, w')
             | (Inr comments_sentiment, w') \<Rightarrow>
                 (let responses = map make_response (zip comments comments_sentiment)
                  in Some (Inr (if sort_by_polarity then sort_reverse polarity_cs responses
                                else responses), w'))))"

section \<open>The title cache and the search of a subfeddit by title\<close>

text \<open>
  Modelled from the spec: the process-wide cache \<open>subfeddit_cache\<close> is a \<open>TTLCache\<close> of
  the library cachetools, whose code is not part of the repository; \<open>api/_core.py\<close>
  builds it as \<open>TTLCache(_CACHE_MAX_SIZE, _CACHE_TTL)\<close> with \<open>_CACHE_MAX_SIZE = 1000\<close>
  and \<open>_CACHE_TTL = 600\<close>. Section 4.4 of the spec: a map from title to id,
  size-bounded with oldest-inserted eviction once capacity is reached, and
  time-bounded. The model is the list of the entries, oldest insertion first, with
  one entry for a title. Storing a title removes its old entry, appends the new one and
  keeps the newest \<open>_CACHE_MAX_SIZE\<close> entries. The model has no clock: no entry expires
  while \<open>get_subfeddit_id\<close> runs.
\<close>

type_synonym TTLCache = "(string \<times> int) list"

definition CACHE_MAX_SIZE :: nat where
  "CACHE_MAX_SIZE = 1000"

definition CACHE_TTL :: nat where
  "CACHE_TTL = 600"

text \<open>
  Modelled from the spec: the size bound of the \<open>TTLCache\<close>. Of a list of entries the
  newest \<open>_CACHE_MAX_SIZE\<close> are kept, the older ones are evicted.
\<close>

definition newest :: "TTLCache \<Rightarrow> TTLCache" where
  "newest es = drop (length es - CACHE_MAX_SIZE) es"

text \<open>
  Modelled from the spec: the operations of the \<open>TTLCache\<close> that \<open>get_subfeddit_id\<close>
  uses, on the map from title to id: \<^verbatim>\<open>key in cache\<close>, \<^verbatim>\<open>cache[key]\<close> (a missing key
  raises \<open>KeyError\<close>), \<^verbatim>\<open>cache[key] = value\<close> and \<^verbatim>\<open>del cache[key]\<close>.
\<close>

definition cache_contains :: "TTLCache \<Rightarrow> string \<Rightarrow> bool" where
  "cache_contains c k = (map_of c k \<noteq> None)"

definition cache_getitem :: "TTLCache \<Rightarrow> string \<Rightarrow> error + int" where
  "cache_getitem c k = (case map_of c k of None \<Rightarrow> Inl (KeyError k) | Some v \<Rightarrow> Inr v)"

definition cache_setitem :: "TTLCache \<Rightarrow> string \<Rightarrow> int \<Rightarrow> TTLCache" where
  "cache_setitem c k v = newest (AList.delete k c @ [(k, v)])"

definition cache_delitem :: "TTLCache \<Rightarrow> string \<Rightarrow> TTLCache" where
  "cache_delitem c k = AList.delete k c"

text \<open>The invariant of the cache: one entry for a title, at most 1000 entries.\<close>

definition cache_ok :: "TTLCache \<Rightarrow> bool" where
  "cache_ok c = (distinct (map fst c) \<and> length c \<le> CACHE_MAX_SIZE)"

text \<open>
  The \<open>for\<close> loop of \<open>get_subfeddit_id\<close> over one batch:
  \<^verbatim>\<open>
  for subfeddit in subfeddit_batch:
      subfeddit_cache[subfeddit.title] = subfeddit.id
      if subfeddit.title == subfeddit_title:
          return subfeddit.id
  \<close>
  The result is the id when the title is found, and the cache after the stores.
\<close>

fun scan_batch :: "string \<Rightarrow> SubfedditInfo list \<Rightarrow> TTLCache \<Rightarrow> int option \<times> TTLCache" where
  "scan_batch subfeddit_title [] c = (None, c)"
| "scan_batch subfeddit_title (subfeddit # rest) c =
     (let c' = cache_setitem c (title subfeddit) (id_s subfeddit)
      in if title subfeddit = subfeddit_title then (Some (id_s subfeddit), c')
         else scan_batch subfeddit_title rest c')"

text \<open>The detail of the 404: \<^verbatim>\<open>f"Subfeddit with title '{subfeddit_title}' not found"\<close>.\<close>

definition not_found_detail :: "string \<Rightarrow> string" where
  "not_found_detail subfeddit_title =
     ''Subfeddit with title '' @ [CHR 0x27] @ subfeddit_title @ [CHR 0x27] @ '' not found''"

text \<open>
  The \<open>while True\<close> loop of \<open>get_subfeddit_id\<close>:
  \<^verbatim>\<open>
  skip = 0
  while True:
      subfeddit_batch = await feddit_client.get_subfeddits(skip=skip, limit=_QUERY_BATCH_SIZE)
      for subfeddit in subfeddit_batch: ...
      if len(subfeddit_batch) < _QUERY_BATCH_SIZE:
          break
      skip += _QUERY_BATCH_SIZE
  raise HTTPException(status_code=404,
                      detail=f"Subfeddit with title '{subfeddit_title}' not found")
  \<close>
  The cache is global state: the loop takes it and returns it with the result, also
  when the result is an exception.
\<close>

partial_function (option) search_subfeddits ::
  "FedditAPIClient \<Rightarrow> string \<Rightarrow> nat \<Rightarrow> TTLCache \<Rightarrow> ((error + int) \<times> TTLCache) option" where
  "search_subfeddits feddit_client subfeddit_title skip c =
     (case get_subfeddits feddit_client skip QUERY_BATCH_SIZE of
        Inl e \<Rightarrow> Some (Inl e, c)
      | Inr subfeddit_batch \<Rightarrow>
          (case scan_batch subfeddit_title subfeddit_batch c of
             (Some found, c') \<Rightarrow> Some (Inr found, c')
           | (None, c') \<Rightarrow>
               if length subfeddit_batch < QUERY_BATCH_SIZE
               then Some (Inl (HTTPException 404 (not_found_detail subfeddit_title)), c')
               else search_subfeddits feddit_client subfeddit_title
                      (skip + QUERY_BATCH_SIZE) c'))"

text \<open>
  \<open>get_subfeddit_id\<close>: a cached id is checked with \<open>get_subfeddit_info\<close>; when the
  service answers \<open>NotFoundError\<close> the entry is deleted and the search runs, any other
  exception propagates.
  \<^verbatim>\<open>
  if subfeddit_title in subfeddit_cache:
      cached_id = subfeddit_cache[subfeddit_title]
      try:
          await feddit_client.get_subfeddit_info(cached_id)
          return cached_id
      except NotFoundError:
          del subfeddit_cache[subfeddit_title]
  \<close>
\<close>

definition get_subfeddit_id ::
  "string \<Rightarrow> FedditAPIClient \<Rightarrow> TTLCache \<Rightarrow> ((error + int) \<times> TTLCache) option" where
  "get_subfeddit_id subfeddit_title feddit_client c =
     (if cache_contains c subfeddit_title then
        (case cache_getitem c subfeddit_title of
           Inl e \<Rightarrow> Some (Inl e, c)
         | Inr cached_id \<Rightarrow>
             (case get_subfeddit_info feddit_client cached_id of
                Inr info \<Rightarrow> Some (Inr cached_id, c)
              | Inl e \<Rightarrow>
                  if e = FedditNotFoundError
                  then search_subfeddits feddit_client subfeddit_title 0
                         (cache_delitem c subfeddit_title)
                  else Some (Inl e, c)))
      else search_subfeddits feddit_client subfeddit_title 0 c)"

text \<open>
  To state properties of a run: the entry a subfeddit is stored as, and the cache
  after storing a list of subfeddits in order.
\<close>

definition entry :: "SubfedditInfo \<Rightarrow> string \<times> int" where
  "entry s = (title s, id_s s)"

definition store_all :: "TTLCache \<Rightarrow> SubfedditInfo list \<Rightarrow> TTLCache" where
  "store_all c ss = foldl (\<lambda>c s. cache_setitem c (title s) (id_s s)) c ss"

section \<open>Concrete collaborators\<close>

text \<open>
  Concrete comments, clients and scorers, on which the functions above are run.
  \<open>comment_at i\<close> is the comment with id \<open>i\<close> created at time \<open>i\<close>.
\<close>

definition comment_at :: "nat \<Rightarrow> CommentInfo" where
  "comment_at i = \<lparr>id_c = int i, username_c = ''user'', text_c = ''text'', created_at = int i\<rparr>"

text \<open>A client that serves the given pages of comments: page \<open>k\<close> at \<open>skip = 5000 * k\<close>.\<close>

definition paged_client :: "CommentInfo list list \<Rightarrow> FedditAPIClient" where
  "paged_client pages =
     \<lparr>get_subfeddit_comments =
        (\<lambda>subfeddit_id skip limit.
           if skip div QUERY_BATCH_SIZE < length pages
           then Inr (pages ! (skip div QUERY_BATCH_SIZE)) else Inr []),
      get_subfeddits = (\<lambda>skip limit. Inr []),
      get_subfeddit_info = (\<lambda>subfeddit_id. Inl FedditNotFoundError)\<rparr>"

text \<open>A full page of 5000 comments with the ids and creation times \<open>0, ..., 4999\<close>.\<close>

definition full_page :: "CommentInfo list" where
  "full_page = map comment_at [0..<5000]"

text \<open>
  A scorer that returns a fixed list of results, and one that always fails; their
  state is the number of calls they have received.
\<close>

definition fixed_scorer ::
  "SentimentAnalysis list \<Rightarrow> string list \<Rightarrow> real option \<Rightarrow> nat
     \<Rightarrow> (error + SentimentAnalysis list) \<times> nat" where
  "fixed_scorer results statements timeout w = (Inr results, Suc w)"

definition failing_scorer ::
  "string list \<Rightarrow> real option \<Rightarrow> nat \<Rightarrow> (error + SentimentAnalysis list) \<times> nat" where
  "failing_scorer statements timeout w = (Inl ModelInternalServerError, Suc w)"

text \<open>
  A \<open>SentimentAnalyzer\<close> whose model API answers every request with status 200 and
  the given content.
\<close>

definition canned_analyzer :: "SentimentScore list list \<Rightarrow> nat SentimentAnalyzer" where
  "canned_analyzer outputs =
     \<lparr>timeout_default = 10,
      post = (\<lambda>w statements timeout. (Inr \<lparr>status_code = 200, content = outputs\<rparr>, Suc w))\<rparr>"

definition scores_of :: "real \<Rightarrow> real \<Rightarrow> real \<Rightarrow> SentimentScore list" where
  "scores_of p n g =
     [\<lparr>label = ''positive'', score = p\<rparr>,
      \<lparr>label = ''neutral'', score = n\<rparr>,
      \<lparr>label = ''negative'', score = g\<rparr>]"

text \<open>
  \<open>subfeddit_at i\<close> is the subfeddit with id \<open>i\<close> whose title is \<open>i + 1\<close> times the
  letter a; \<open>many_subfeddits\<close> are the first 1001 of them. \<open>subfeddits_client\<close> serves
  the given pages of subfeddits and knows no subfeddit by id.
\<close>

definition subfeddit_at :: "nat \<Rightarrow> SubfedditInfo" where
  "subfeddit_at i =
     \<lparr>id_s = int i, username_s = ''user'', title = replicate (Suc i) (CHR ''a''),
      description = ''about''\<rparr>"

definition many_subfeddits :: "SubfedditInfo list" where
  "many_subfeddits = map subfeddit_at [0..<1001]"

definition subfeddits_client :: "SubfedditInfo list list \<Rightarrow> FedditAPIClient" where
  "subfeddits_client pages =
     \<lparr>get_subfeddit_comments = (\<lambda>subfeddit_id skip limit. Inr []),
      get_subfeddits =
        (\<lambda>skip limit.
           if skip div QUERY_BATCH_SIZE < length pages
           then Inr (pages ! (skip div QUERY_BATCH_SIZE)) else Inr []),
      get_subfeddit_info = (\<lambda>subfeddit_id. Inl FedditNotFoundError)\<rparr>"

section \<open>Properties of the polarity computation\<close>



text \<open>
  C3 (as the code has it). When the three scores are all zero the polarity computation
  fails with Python's \<open>ZeroDivisionError\<close>: the division is not guarded and the numeric
  exception is what the caller receives.
\<close>

theorem compute_polarity_all_zero_counterexample:
  "compute_polarity 0 0 0 = Inl ZeroDivisionError"
  by (simp add: compute_polarity_def)

text \<open>
  C3, amended. The polarity computation fails exactly when the three scores sum to
  zero, and the failure is \<open>ZeroDivisionError\<close>; for scores that are not negative this
  is the input with all three scores zero. The exception is not caught on the way:
  \<open>_analyze_output\<close> and \<open>_process_outputs\<close> fail with it as well.
\<close>

theorem compute_polarity_zero_division:
  "(compute_polarity p n g = Inl ZeroDivisionError \<longleftrightarrow> p + n + g = 0)
   \<and> (\<forall>e. compute_polarity p n g = Inl e \<longrightarrow> e = ZeroDivisionError \<and> p + n + g = 0)
   \<and> (0 \<le> p \<and> 0 \<le> n \<and> 0 \<le> g \<longrightarrow> (p + n + g = 0 \<longleftrightarrow> p = 0 \<and> n = 0 \<and> g = 0))
   \<and> (p + n + g = 0 \<longrightarrow>
        analyze_output st (scores_of p n g) = Inl ZeroDivisionError
      \<and> process_outputs [st] [scores_of p n g] = Inl ZeroDivisionError)"
proof -
  have "analyze_output st (scores_of p n g) = Inl ZeroDivisionError" if "p + n + g = 0"
    using that
    by (simp add: analyze_output_def scores_of_def scores_dict_def getitem_def
        compute_polarity_def)
  then show ?thesis
    by (auto simp add: compute_polarity_def process_outputs_def)
qed

theorem compute_polarity_zero_division_witness:
  "compute_polarity 0 0 0 = Inl ZeroDivisionError
   \<and> compute_polarity (1/2) 0 (1/2) = Inr 0
   \<and> analyze_output ''a statement'' (scores_of 0 0 0) = Inl ZeroDivisionError
   \<and> process_outputs [''a statement''] [scores_of 0 0 0] = Inl ZeroDivisionError"
  using compute_polarity_zero_division [of 0 0 0 "''a statement''"]
        compute_polarity_zero_division [of "1/2" 0 "1/2" "''a statement''"]
  by (simp add: compute_polarity_def)

text \<open>
  C8. For a polarity in \<open>[-1,1]\<close> the classification is positive exactly when the
  polarity is at least \<open>0\<close> (so \<open>0\<close> itself is positive) and negative otherwise; for a
  polarity outside \<open>[-1,1]\<close> the classification fails with \<open>InvalidPolarityError\<close>
  carrying that polarity, and nothing is clamped.
\<close>

theorem from_polarity_classification:
  "(-1 \<le> p \<and> p \<le> 1 \<longrightarrow>
      (from_polarity p = Inr POSITIVE \<longleftrightarrow> p \<ge> 0)
    \<and> (from_polarity p = Inr NEGATIVE \<longleftrightarrow> p < 0))
   \<and> (\<not> (-1 \<le> p \<and> p \<le> 1) \<longrightarrow> from_polarity p = Inl (InvalidPolarityError p))"
  by (auto simp add: from_polarity_def POL_TH_def)

theorem from_polarity_classification_witness:
  "from_polarity 0 = Inr POSITIVE
   \<and> from_polarity (-1/2) = Inr NEGATIVE
   \<and> from_polarity 2 = Inl (InvalidPolarityError 2)
   \<and> from_polarity (-3/2) = Inl (InvalidPolarityError (-3/2))"
  using from_polarity_classification [of 0]
        from_polarity_classification [of "-1/2"]
        from_polarity_classification [of 2]
        from_polarity_classification [of "-3/2"]
  by simp

section \<open>Properties of the bounded merge\<close>

lemma insort_key_insr: "insort_key f x (insr f y as) = insr f y (insort_key f x as)"
  by (induction as) auto

lemma sort_key_snoc: "sort_key f (xs @ [y]) = insr f y (sort_key f xs)"
  by (induction xs) (simp_all add: insort_key_insr)

lemma take_insr_take: "take k (insr f y (take k as)) = take k (insr f y as)"
proof (induction as arbitrary: k)
  case Nil
  then show ?case by simp
next
  case (Cons a as)
  show ?case
  proof (cases k)
    case 0
    then show ?thesis by simp
  next
    case (Suc j)
    then show ?thesis using Cons.IH [of j] by (cases j) auto
  qed
qed

text \<open>
  Truncating the sorted accumulator before the next batch arrives loses nothing of
  the final prefix.
\<close>

lemma take_sort_take_append:
  "take k (sort_key f (take k (sort_key f xs) @ ys)) = take k (sort_key f (xs @ ys))"
proof (induction ys rule: rev_induct)
  case Nil
  have "sort_key f (take k (sort_key f xs)) = take k (sort_key f xs)"
    by (rule sort_key_id_if_sorted) (simp add: sorted_wrt_take flip: take_map)
  then show ?case by simp
next
  case (snoc y ys)
  have "take k (sort_key f (take k (sort_key f xs) @ ys @ [y]))
      = take k (insr f y (sort_key f (take k (sort_key f xs) @ ys)))"
    by (simp add: sort_key_snoc flip: append_assoc)
  also have "\<dots> = take k (insr f y (take k (sort_key f (take k (sort_key f xs) @ ys))))"
    by (simp add: take_insr_take)
  also have "\<dots> = take k (insr f y (take k (sort_key f (xs @ ys))))"
    by (simp only: snoc.IH)
  also have "\<dots> = take k (insr f y (sort_key f (xs @ ys)))"
    by (simp add: take_insr_take)
  also have "\<dots> = take k (sort_key f (xs @ ys @ [y]))"
    by (simp add: sort_key_snoc flip: append_assoc)
  finally show ?case .
qed

lemma foldl_merge_batch:
  "foldl (merge_batch mn mx) (take QUERY_LIMIT (sort_reverse created_at xs)) bs
     = take QUERY_LIMIT (sort_reverse created_at (xs @ filter (in_range mn mx) (concat bs)))"
proof (induction bs arbitrary: xs)
  case Nil
  then show ?case by simp
next
  case (Cons b bs)
  have "merge_batch mn mx (take QUERY_LIMIT (sort_reverse created_at xs)) b
      = take QUERY_LIMIT (sort_reverse created_at (xs @ filter (in_range mn mx) b))"
    unfolding merge_batch_def sort_reverse_def by (rule take_sort_take_append)
  then show ?case using Cons.IH [of "xs @ filter (in_range mn mx) b"] by simp
qed

text \<open>
  The window after any list of batches is the first 25 entries of the qualifying
  comments of all batches, sorted newest first.
\<close>

lemma merge_window_eq:
  "merge_window mn mx bs
     = take QUERY_LIMIT (sort_reverse created_at (filter (in_range mn mx) (concat bs)))"
  using foldl_merge_batch [of mn mx "[]" bs]
  by (simp add: merge_window_def sort_reverse_def)

text \<open>
  When the client serves the batches \<open>bs\<close>, the loop returns, and it returns the
  rounds of the loop folded over \<open>bs\<close>.
\<close>

lemma get_all_comments_loop_fetched:
  "fetched (get_subfeddit_comments client sid) skip bs \<Longrightarrow>
     get_all_comments_loop client sid mn mx skip acc
       = Some (Inr (foldl (merge_batch mn mx) acc bs))"
proof (induction bs arbitrary: skip acc)
  case Nil
  then show ?case by simp
next
  case (Cons b bs)
  from Cons.prems have b: "get_subfeddit_comments client sid skip QUERY_BATCH_SIZE = Inr b"
    by simp
  show ?case
  proof (cases "length b < QUERY_BATCH_SIZE")
    case True
    with Cons.prems have "bs = []" by simp
    with b True show ?thesis
      by (subst get_all_comments_loop.simps) simp
  next
    case False
    with Cons.prems have "fetched (get_subfeddit_comments client sid) (skip + QUERY_BATCH_SIZE) bs"
      by simp
    from Cons.IH [OF this] b False show ?thesis
      by (subst get_all_comments_loop.simps) simp
  qed
qed

lemma get_all_comments_fetched:
  "fetched (get_subfeddit_comments client sid) 0 bs \<Longrightarrow>
     get_all_comments sid mn mx client = Some (Inr (merge_window mn mx bs))"
  by (simp add: get_all_comments_def merge_window_def get_all_comments_loop_fetched)

text \<open>
  Conversely, every run of the loop that returns a list has fetched some batches
  \<open>bs\<close> of this kind and returns their window.
\<close>

lemma get_all_comments_loop_sound:
  assumes "get_all_comments_loop client0 sid0 mn0 mx0 skip0 acc0 = Some y0"
  shows "\<forall>w. y0 = Inr w \<longrightarrow>
           (\<exists>bs. fetched (get_subfeddit_comments client0 sid0) skip0 bs
              \<and> w = foldl (merge_batch mn0 mx0) acc0 bs)"
proof (rule get_all_comments_loop.raw_induct
    [where P = "\<lambda>client sid mn mx skip acc y. \<forall>w. y = Inr w \<longrightarrow>
           (\<exists>bs. fetched (get_subfeddit_comments client sid) skip bs
              \<and> w = foldl (merge_batch mn mx) acc bs)", OF _ assms])
  fix loop client sid mn mx skip acc y
  assume ih: "\<And>client sid mn mx skip acc y. loop client sid mn mx skip acc = Some y \<Longrightarrow>
           \<forall>w. y = Inr w \<longrightarrow>
             (\<exists>bs. fetched (get_subfeddit_comments client sid) skip bs
                \<and> w = foldl (merge_batch mn mx) acc bs)"
    and eq: "(case get_subfeddit_comments client sid skip QUERY_BATCH_SIZE of
        Inl e \<Rightarrow> Some (Inl e)
      | Inr comment_batch \<Rightarrow>
          (let stop = length comment_batch < QUERY_BATCH_SIZE;
               comments' = merge_batch mn mx acc comment_batch
           in if stop then Some (Inr comments')
              else loop client sid mn mx (skip + QUERY_BATCH_SIZE) comments')) = Some y"
  show "\<forall>w. y = Inr w \<longrightarrow>
           (\<exists>bs. fetched (get_subfeddit_comments client sid) skip bs
              \<and> w = foldl (merge_batch mn mx) acc bs)"
  proof (cases "get_subfeddit_comments client sid skip QUERY_BATCH_SIZE")
    case (Inl e)
    with eq show ?thesis by auto
  next
    case (Inr b)
    show ?thesis
    proof (cases "length b < QUERY_BATCH_SIZE")
      case True
      with Inr eq have y: "y = Inr (merge_batch mn mx acc b)" by simp
      have "fetched (get_subfeddit_comments client sid) skip [b]"
        using Inr True by simp
      moreover have "merge_batch mn mx acc b = foldl (merge_batch mn mx) acc [b]" by simp
      ultimately show ?thesis using y by blast
    next
      case False
      with Inr eq
      have "loop client sid mn mx (skip + QUERY_BATCH_SIZE) (merge_batch mn mx acc b) = Some y"
        by simp
      note ih' = ih [OF this]
      show ?thesis
      proof (intro allI impI)
        fix w assume "y = Inr w"
        with ih' obtain bs
          where bs: "fetched (get_subfeddit_comments client sid) (skip + QUERY_BATCH_SIZE) bs"
            and w: "w = foldl (merge_batch mn mx) (merge_batch mn mx acc b) bs"
          by blast
        have "fetched (get_subfeddit_comments client sid) skip (b # bs)"
          using Inr False bs by simp
        moreover have "w = foldl (merge_batch mn mx) acc (b # bs)"
          using w by simp
        ultimately show "\<exists>bs. fetched (get_subfeddit_comments client sid) skip bs
              \<and> w = foldl (merge_batch mn mx) acc bs"
          by blast
      qed
    qed
  qed
qed

lemma get_all_comments_sound:
  "get_all_comments sid mn mx client = Some (Inr w) \<Longrightarrow>
     \<exists>bs. fetched (get_subfeddit_comments client sid) 0 bs \<and> w = merge_window mn mx bs"
  using get_all_comments_loop_sound [of client sid mn mx 0 "[]" "Inr w"]
  by (simp add: get_all_comments_def merge_window_def)

lemma length_merge_window:
  "length (merge_window mn mx bs)
     = min QUERY_LIMIT (length (filter (in_range mn mx) (concat bs)))"
  by (simp add: merge_window_eq sort_reverse_def)

lemma mset_merge_window:
  "mset (merge_window mn mx bs) \<subseteq># mset (filter (in_range mn mx) (concat bs))"
proof -
  let ?s = "sort_reverse created_at (filter (in_range mn mx) (concat bs))"
  have "mset (take QUERY_LIMIT ?s) \<subseteq># mset (take QUERY_LIMIT ?s @ drop QUERY_LIMIT ?s)"
    by (simp only: mset_append mset_subset_eq_add_left)
  then have "mset (take QUERY_LIMIT ?s) \<subseteq># mset ?s" by simp
  then show ?thesis by (simp add: merge_window_eq sort_reverse_def)
qed

text \<open>The concrete pages.\<close>

lemma length_full_page: "length full_page = QUERY_BATCH_SIZE"
  by (simp add: full_page_def QUERY_BATCH_SIZE_def)

lemma filter_full_page:
  "filter (in_range (Some 4999) None) full_page = [comment_at 4999]"
proof -
  have upt: "[0..<5000] = [0..<4999] @ [4999]"
    using upt_Suc_append [of 0 4999] by simp
  have "filter (\<lambda>i. 4999 \<le> int i) [0..<4999] = []"
    by (simp add: filter_empty_conv)
  then have "filter (\<lambda>i. 4999 \<le> int i) [0..<5000] = [4999]"
    by (simp add: upt)
  moreover have "filter (in_range (Some 4999) None) (map comment_at [0..<5000])
       = map comment_at (filter (\<lambda>i. 4999 \<le> int i) [0..<5000])"
    by (simp add: filter_map o_def in_range_def comment_at_def)
  ultimately show ?thesis by (simp add: full_page_def)
qed

lemma fetched_one_page:
  "length b < QUERY_BATCH_SIZE \<Longrightarrow> fetched (get_subfeddit_comments (paged_client [b]) sid) 0 [b]"
  by (simp add: paged_client_def QUERY_BATCH_SIZE_def)

lemma fetched_two_pages:
  "length b < QUERY_BATCH_SIZE \<Longrightarrow>
     fetched (get_subfeddit_comments (paged_client [full_page, b]) sid) 0 [full_page, b]"
  by (simp add: paged_client_def length_full_page)


lemma distinct_ids_merge_window:
  assumes "distinct (map id_c (filter (in_range mn mx) (concat bs)))"
  shows "distinct (map id_c (merge_window mn mx bs))"
proof -
  let ?q = "filter (in_range mn mx) (concat bs)"
  let ?s = "sort_key (\<lambda>x. - created_at x) ?q"
  from assms have "distinct ?q" and inj: "inj_on id_c (set ?q)"
    by (simp_all only: distinct_map)
  then have "distinct ?s" and "inj_on id_c (set ?s)"
    by simp_all
  then have "distinct (map id_c ?s)"
    by (simp only: distinct_map)
  then have "distinct (take QUERY_LIMIT (map id_c ?s))"
    by (rule distinct_take)
  then show ?thesis
    by (simp add: merge_window_eq sort_reverse_def take_map)
qed

lemma length_analyze_comments_sentiment:
  assumes "get_all_comments sid mn mx client = Some (Inr comments)"
    and "analyze_comments_sentiment sid mn mx sbp client scorer w = Some (Inr r, w')"
  shows "length r \<le> length comments"
proof (cases "comments = []")
  case True
  with assms show ?thesis by (simp add: analyze_comments_sentiment_def)
next
  case False
  obtain res w2 where sc: "scorer (map text_c comments) (Some 60) w = (res, w2)"
    by (cases "scorer (map text_c comments) (Some 60) w")
  show ?thesis
  proof (cases res)
    case (Inl e)
    with assms False sc show ?thesis by (simp add: analyze_comments_sentiment_def)
  next
    case (Inr results)
    with assms False sc
    have "r = (if sbp then sort_reverse polarity_cs (map make_response (zip comments results))
               else map make_response (zip comments results))"
      by (auto simp add: analyze_comments_sentiment_def Let_def)
    then show ?thesis by (simp add: sort_reverse_def)
  qed
qed

text \<open>
  C6. Every list that \<open>_get_all_comments\<close> returns has at most 25 entries, and so has
  every list that \<open>analyze_comments_sentiment\<close> returns. When the client serves the
  batches \<open>bs\<close>, \<open>_get_all_comments\<close> returns the window of \<open>bs\<close>, and when fewer than
  25 comments of all batches qualify the window has exactly as many entries as
  comments qualify.
\<close>

theorem window_at_most_25:
  "(\<forall>win. get_all_comments sid mn mx client = Some (Inr win) \<longrightarrow> length win \<le> 25)
   \<and> (\<forall>r w'. analyze_comments_sentiment sid mn mx sbp client scorer w = Some (Inr r, w')
          \<longrightarrow> length r \<le> 25)
   \<and> (fetched (get_subfeddit_comments client sid) 0 bs \<longrightarrow>
          get_all_comments sid mn mx client = Some (Inr (merge_window mn mx bs))
        \<and> length (merge_window mn mx bs) \<le> 25
        \<and> (length (filter (in_range mn mx) (concat bs)) < 25 \<longrightarrow>
             length (merge_window mn mx bs) = length (filter (in_range mn mx) (concat bs))))"
proof -
  have le: "length (merge_window mn mx bs') \<le> 25" for bs'
    by (simp add: length_merge_window QUERY_LIMIT_def)
  have win: "\<forall>win. get_all_comments sid mn mx client = Some (Inr win) \<longrightarrow> length win \<le> 25"
    using le by (auto dest: get_all_comments_sound)
  have res: "\<forall>r w'. analyze_comments_sentiment sid mn mx sbp client scorer w = Some (Inr r, w')
            \<longrightarrow> length r \<le> 25"
  proof (intro allI impI)
    fix r w'
    assume a: "analyze_comments_sentiment sid mn mx sbp client scorer w = Some (Inr r, w')"
    then obtain comments where c: "get_all_comments sid mn mx client = Some (Inr comments)"
      by (auto simp add: analyze_comments_sentiment_def split: option.splits sum.splits)
    from c a have "length r \<le> length comments"
      by (rule length_analyze_comments_sentiment)
    moreover from win c have "length comments \<le> 25" by blast
    ultimately show "length r \<le> 25" by simp
  qed
  have ex: "length (filter (in_range mn mx) (concat bs)) < 25 \<longrightarrow>
            length (merge_window mn mx bs) = length (filter (in_range mn mx) (concat bs))"
    by (simp add: length_merge_window QUERY_LIMIT_def)
  from win res le [of bs] ex get_all_comments_fetched [of client sid bs mn mx]
  show ?thesis by blast
qed

theorem window_at_most_25_witness:
  "fetched (get_subfeddit_comments (paged_client [[comment_at 1, comment_at 2]]) 7) 0
     [[comment_at 1, comment_at 2]]
   \<and> get_all_comments 7 None None (paged_client [[comment_at 1, comment_at 2]])
       = Some (Inr [comment_at 2, comment_at 1])
   \<and> length [comment_at 2, comment_at 1] \<le> 25
   \<and> length (filter (in_range None None) (concat [[comment_at 1, comment_at 2]])) < 25
   \<and> length (merge_window None None [[comment_at 1, comment_at 2]]) = 2
   \<and> analyze_comments_sentiment 7 None None False (paged_client [[comment_at 1, comment_at 2]])
        (fixed_scorer [\<lparr>statement = ''text'', polarity = 1/2, sentiment = POSITIVE\<rparr>]) 0
       = Some (Inr [\<lparr>comment_id = 2, comment = ''text'', polarity_cs = 1/2,
                     classification = ''positive''\<rparr>], 1)
   \<and> length [\<lparr>comment_id = 2, comment = ''text'', polarity_cs = 1/2,
               classification = ''positive''\<rparr>] \<le> 25"
proof -
  let ?bs = "[[comment_at 1, comment_at 2]]"
  let ?scorer = "fixed_scorer [\<lparr>statement = ''text'', polarity = 1/2, sentiment = POSITIVE\<rparr>]"
  let ?r = "[\<lparr>comment_id = 2, comment = ''text'', polarity_cs = 1/2,
              classification = ''positive''\<rparr>]"
  have f: "fetched (get_subfeddit_comments (paged_client ?bs) 7) 0 ?bs"
    by (rule fetched_one_page) (simp add: QUERY_BATCH_SIZE_def)
  note t = window_at_most_25 [of 7 None None "paged_client ?bs" False ?scorer 0 ?bs]
  have w: "merge_window None None ?bs = [comment_at 2, comment_at 1]"
    by (simp add: merge_window_def merge_batch_def sort_reverse_def in_range_def
        comment_at_def QUERY_LIMIT_def)
  from t f have "get_all_comments 7 None None (paged_client ?bs)
      = Some (Inr (merge_window None None ?bs))"
    by blast
  then have g: "get_all_comments 7 None None (paged_client ?bs)
      = Some (Inr [comment_at 2, comment_at 1])"
    by (simp only: w)
  have gl: "length [comment_at 2, comment_at 1] \<le> 25"
    using t g by blast
  have q: "length (filter (in_range None None) (concat ?bs)) < 25"
    by simp
  from t f q have "length (merge_window None None ?bs)
      = length (filter (in_range None None) (concat ?bs))"
    by blast
  then have l: "length (merge_window None None ?bs) = 2"
    by (simp add: in_range_def)
  have a: "analyze_comments_sentiment 7 None None False (paged_client ?bs) ?scorer 0
             = Some (Inr ?r, 1)"
    unfolding analyze_comments_sentiment_def g
    by (simp add: fixed_scorer_def make_response_def comment_at_def)
  have b: "length ?r \<le> 25"
    using t a by blast
  from f g gl q l a b show ?thesis by blast
qed

text \<open>
  C5. The window depends on the sequence of qualifying comments only, not on how the
  sequence is cut into batches: two lists of batches with the same qualifying comments
  in the same order have the same window, in the same order, and two runs of
  \<open>_get_all_comments\<close> whose clients serve them return the same list. Nothing is
  assumed about the ids.
\<close>

theorem bounded_merge_partition_invariant:
  assumes "filter (in_range mn mx) (concat bs1) = filter (in_range mn mx) (concat bs2)"
  shows "merge_window mn mx bs1 = merge_window mn mx bs2
       \<and> (fetched (get_subfeddit_comments client1 sid1) 0 bs1
          \<and> fetched (get_subfeddit_comments client2 sid2) 0 bs2 \<longrightarrow>
            get_all_comments sid1 mn mx client1 = Some (Inr (merge_window mn mx bs1))
          \<and> get_all_comments sid2 mn mx client2 = get_all_comments sid1 mn mx client1)"
proof -
  have eq: "merge_window mn mx bs1 = merge_window mn mx bs2"
    using assms by (simp add: merge_window_eq)
  have "get_all_comments sid1 mn mx client1 = Some (Inr (merge_window mn mx bs1))
      \<and> get_all_comments sid2 mn mx client2 = get_all_comments sid1 mn mx client1"
    if "fetched (get_subfeddit_comments client1 sid1) 0 bs1"
      and "fetched (get_subfeddit_comments client2 sid2) 0 bs2"
    using get_all_comments_fetched [OF that(1), of mn mx]
      get_all_comments_fetched [OF that(2), of mn mx] eq
    by simp
  with eq show ?thesis by blast
qed

theorem bounded_merge_partition_invariant_witness:
  "filter (in_range (Some 4999) None) (concat [full_page, [comment_at 5000]])
     = filter (in_range (Some 4999) None) (concat [[comment_at 4999, comment_at 5000]])
   \<and> fetched (get_subfeddit_comments (paged_client [full_page, [comment_at 5000]]) 7) 0
       [full_page, [comment_at 5000]]
   \<and> fetched (get_subfeddit_comments (paged_client [[comment_at 4999, comment_at 5000]]) 7) 0
       [[comment_at 4999, comment_at 5000]]
   \<and> get_all_comments 7 (Some 4999) None (paged_client [full_page, [comment_at 5000]])
       = Some (Inr [comment_at 5000, comment_at 4999])
   \<and> get_all_comments 7 (Some 4999) None (paged_client [[comment_at 4999, comment_at 5000]])
       = Some (Inr [comment_at 5000, comment_at 4999])"
proof -
  let ?bs1 = "[full_page, [comment_at 5000]]"
  let ?bs2 = "[[comment_at 4999, comment_at 5000]]"
  have q: "filter (in_range (Some 4999) None) (concat ?bs1)
         = filter (in_range (Some 4999) None) (concat ?bs2)"
    by (simp add: filter_full_page) (simp add: in_range_def comment_at_def)
  have f1: "fetched (get_subfeddit_comments (paged_client ?bs1) 7) 0 ?bs1"
    by (rule fetched_two_pages) (simp add: QUERY_BATCH_SIZE_def)
  have f2: "fetched (get_subfeddit_comments (paged_client ?bs2) 7) 0 ?bs2"
    by (rule fetched_one_page) (simp add: QUERY_BATCH_SIZE_def)
  have w: "merge_window (Some 4999) None ?bs2 = [comment_at 5000, comment_at 4999]"
    by (simp add: merge_window_def merge_batch_def sort_reverse_def in_range_def
        comment_at_def QUERY_LIMIT_def)
  note t = bounded_merge_partition_invariant
      [OF q, of "paged_client ?bs1" 7 "paged_client ?bs2" 7]
  from t have e: "merge_window (Some 4999) None ?bs1 = merge_window (Some 4999) None ?bs2"
    by blast
  from t f1 f2
  have r1: "get_all_comments 7 (Some 4999) None (paged_client ?bs1)
              = Some (Inr (merge_window (Some 4999) None ?bs1))"
    and r2: "get_all_comments 7 (Some 4999) None (paged_client ?bs2)
              = get_all_comments 7 (Some 4999) None (paged_client ?bs1)"
    by blast+
  have g1: "get_all_comments 7 (Some 4999) None (paged_client ?bs1)
              = Some (Inr [comment_at 5000, comment_at 4999])"
    by (simp only: r1 e w)
  have g2: "get_all_comments 7 (Some 4999) None (paged_client ?bs2)
              = Some (Inr [comment_at 5000, comment_at 4999])"
    by (simp only: r2 g1)
  from q f1 f2 g1 g2 show ?thesis by blast
qed

text \<open>
  C1 (as the code has it). The first page holds 5000 comments with distinct ids, the
  second page repeats the comment with id 4999. With \<open>min_datetime = 4999\<close> the list
  returned by \<open>_get_all_comments\<close> holds that comment twice.
\<close>

theorem duplicate_id_counterexample:
  "get_all_comments 7 (Some 4999) None (paged_client [full_page, [comment_at 4999]])
     = Some (Inr [comment_at 4999, comment_at 4999])"
proof -
  have "fetched (get_subfeddit_comments (paged_client [full_page, [comment_at 4999]]) 7) 0
          [full_page, [comment_at 4999]]"
    by (rule fetched_two_pages) (simp add: QUERY_BATCH_SIZE_def)
  then have "get_all_comments 7 (Some 4999) None (paged_client [full_page, [comment_at 4999]])
      = Some (Inr (merge_window (Some 4999) None [full_page, [comment_at 4999]]))"
    by (rule get_all_comments_fetched)
  moreover have "merge_window (Some 4999) None [full_page, [comment_at 4999]]
      = [comment_at 4999, comment_at 4999]"
    by (simp add: merge_window_eq filter_full_page sort_reverse_def QUERY_LIMIT_def)
       (simp add: in_range_def comment_at_def)
  ultimately show ?thesis by simp
qed

text \<open>
  C1, amended. The bounded merge removes no duplicates. When the client serves the
  batches \<open>bs\<close>, the list returned by \<open>_get_all_comments\<close> is a sub-multiset of the
  qualifying comments of \<open>bs\<close>: a comment occurs in it at most as often as the batches
  hold it. So the list holds each comment id at most once whenever the qualifying
  comments of all batches have pairwise distinct ids.
\<close>

theorem window_ids_as_fetched:
  assumes "fetched (get_subfeddit_comments client sid) 0 bs"
  shows "get_all_comments sid mn mx client = Some (Inr (merge_window mn mx bs))
       \<and> mset (merge_window mn mx bs) \<subseteq># mset (filter (in_range mn mx) (concat bs))
       \<and> (distinct (map id_c (filter (in_range mn mx) (concat bs))) \<longrightarrow>
            distinct (map id_c (merge_window mn mx bs)))"
  using get_all_comments_fetched [OF assms, of mn mx] mset_merge_window [of mn mx bs]
    distinct_ids_merge_window [of mn mx bs]
  by blast

theorem window_ids_as_fetched_witness:
  "fetched (get_subfeddit_comments (paged_client [[comment_at 3, comment_at 8]]) 7) 0
     [[comment_at 3, comment_at 8]]
   \<and> distinct (map id_c (filter (in_range None None) (concat [[comment_at 3, comment_at 8]])))
   \<and> get_all_comments 7 None None (paged_client [[comment_at 3, comment_at 8]])
       = Some (Inr [comment_at 8, comment_at 3])
   \<and> distinct (map id_c [comment_at 8, comment_at 3])"
proof -
  let ?bs = "[[comment_at 3, comment_at 8]]"
  have f: "fetched (get_subfeddit_comments (paged_client ?bs) 7) 0 ?bs"
    by (rule fetched_one_page) (simp add: QUERY_BATCH_SIZE_def)
  have d: "distinct (map id_c (filter (in_range None None) (concat ?bs)))"
    by (simp add: in_range_def comment_at_def)
  have w: "merge_window None None ?bs = [comment_at 8, comment_at 3]"
    by (simp add: merge_window_def merge_batch_def sort_reverse_def in_range_def
        comment_at_def QUERY_LIMIT_def)
  note t = window_ids_as_fetched [OF f, of None None]
  have g: "get_all_comments 7 None None (paged_client ?bs) = Some (Inr [comment_at 8, comment_at 3])"
    using t by (simp only: w)
  have d': "distinct (map id_c [comment_at 8, comment_at 3])"
    using t d by (simp only: w)
  from f d g d' show ?thesis by blast
qed

section \<open>Properties of the orchestrator\<close>

text \<open>
  C9. When no comment of the batches the client serves qualifies,
  \<open>analyze_comments_sentiment\<close> returns the empty list and not an error. The scorer is
  not called: the result is the same for every scorer, also one that always fails, and
  the state \<open>w\<close> of the scoring service is returned unchanged.
\<close>

theorem no_comments_returns_empty:
  assumes "fetched (get_subfeddit_comments client sid) 0 bs"
    and "filter (in_range mn mx) (concat bs) = []"
  shows "analyze_comments_sentiment sid mn mx sbp client scorer w = Some (Inr [], w)"
proof -
  have "merge_window mn mx bs = []"
    using assms(2) by (simp add: merge_window_eq sort_reverse_def)
  with get_all_comments_fetched [OF assms(1), of mn mx]
  have "get_all_comments sid mn mx client = Some (Inr [])" by simp
  then show ?thesis by (simp add: analyze_comments_sentiment_def)
qed

theorem no_comments_returns_empty_witness:
  "fetched (get_subfeddit_comments (paged_client [[comment_at 1]]) 7) 0 [[comment_at 1]]
   \<and> filter (in_range (Some 5) None) (concat [[comment_at 1]]) = []
   \<and> analyze_comments_sentiment 7 (Some 5) None True (paged_client [[comment_at 1]])
        failing_scorer 0 = Some (Inr [], 0)
   \<and> failing_scorer [] (Some 60) 0 = (Inl ModelInternalServerError, 1)"
proof -
  have f: "fetched (get_subfeddit_comments (paged_client [[comment_at 1]]) 7) 0 [[comment_at 1]]"
    by (rule fetched_one_page) (simp add: QUERY_BATCH_SIZE_def)
  have q: "filter (in_range (Some 5) None) (concat [[comment_at 1]]) = []"
    by (simp add: in_range_def comment_at_def)
  have s: "failing_scorer [] (Some 60) 0 = (Inl ModelInternalServerError, 1)"
    by (simp add: failing_scorer_def)
  from no_comments_returns_empty [OF f q, of True failing_scorer 0] f q s
  show ?thesis by blast
qed

lemma length_analyze_pairs: "analyze_pairs ps = Inr as \<Longrightarrow> length as = length ps"
  by (induction ps arbitrary: as) (auto split: sum.splits)

lemma validate_required_labels_scores_of:
  "validate_required_labels [scores_of p n g] = Inr [scores_of p n g]"
  by (auto simp add: validate_required_labels_def scores_of_def NLABELS_def)

lemma analyze_output_scores_of:
  "analyze_output st (scores_of (1/2) (1/4) (1/4))
     = Inr \<lparr>statement = st, polarity = 1/4, sentiment = POSITIVE\<rparr>"
  by (simp add: analyze_output_def scores_of_def scores_dict_def getitem_def
      compute_polarity_def from_polarity_def POL_TH_def
      polarity_must_be_between_minus_1_and_1_def)

text \<open>
  C2 (as the code has it). Two comments survive and the model API answers with the
  scores of one statement only. \<open>_process_outputs\<close> yields one result,
  \<open>analyze_comments_sentiment\<close> pairs it with the newest comment and returns a list of
  one entry: no error is raised, the second comment is dropped.
\<close>

theorem length_mismatch_counterexample:
  "analyze_comments_sentiment 7 None None False (paged_client [[comment_at 1, comment_at 2]])
     (analyze_sentiment (canned_analyzer [scores_of (1/2) (1/4) (1/4)])) 0
   = Some (Inr [\<lparr>comment_id = 2, comment = ''text'', polarity_cs = 1/4,
                 classification = ''positive''\<rparr>], 1)"
proof -
  let ?bs = "[[comment_at 1, comment_at 2]]"
  have "fetched (get_subfeddit_comments (paged_client ?bs) 7) 0 ?bs"
    by (rule fetched_one_page) (simp add: QUERY_BATCH_SIZE_def)
  then have "get_all_comments 7 None None (paged_client ?bs)
      = Some (Inr (merge_window None None ?bs))"
    by (rule get_all_comments_fetched)
  moreover have "merge_window None None ?bs = [comment_at 2, comment_at 1]"
    by (simp add: merge_window_def merge_batch_def sort_reverse_def in_range_def
        comment_at_def QUERY_LIMIT_def)
  ultimately have g: "get_all_comments 7 None None (paged_client ?bs)
      = Some (Inr [comment_at 2, comment_at 1])"
    by simp
  have v: "model_validate [scores_of (1/2) (1/4) (1/4)] = Inr [scores_of (1/2) (1/4) (1/4)]"
    by (simp add: model_validate_def validate_required_labels_scores_of)
       (simp add: scores_of_def score_must_be_between_0_and_1_def)
  have a: "analyze_sentiment (canned_analyzer [scores_of (1/2) (1/4) (1/4)]) [x, y] (Some 60) 0
           = (Inr [\<lparr>statement = x, polarity = 1/4, sentiment = POSITIVE\<rparr>], 1)" for x y
    by (simp add: analyze_sentiment_def request_sentiment_def canned_analyzer_def
        handle_response_def v process_outputs_def analyze_output_scores_of)
  show ?thesis
    unfolding analyze_comments_sentiment_def g
    by (simp add: a make_response_def comment_at_def)
qed

text \<open>
  C2, amended. When the scorer returns a list of results, of whatever length,
  \<open>analyze_comments_sentiment\<close> does not fail: it pairs comments and results by position
  up to the end of the shorter list and returns that many entries, sorted by polarity
  when asked to. \<open>_process_outputs\<close> pairs statements and outputs in the same way.
\<close>

theorem length_mismatch_truncates:
  assumes "get_all_comments sid mn mx client = Some (Inr comments)"
    and "comments \<noteq> []"
    and "scorer (map text_c comments) (Some 60) w = (Inr results, w')"
  shows "analyze_comments_sentiment sid mn mx sbp client scorer w
           = Some (Inr (if sbp then sort_reverse polarity_cs (map make_response (zip comments results))
                        else map make_response (zip comments results)), w')
       \<and> length (if sbp then sort_reverse polarity_cs (map make_response (zip comments results))
                 else map make_response (zip comments results))
           = min (length comments) (length results)
       \<and> (\<forall>as. process_outputs statements outputs = Inr as \<longrightarrow>
            length as = min (length statements) (length outputs))"
proof -
  have "analyze_comments_sentiment sid mn mx sbp client scorer w
           = Some (Inr (if sbp then sort_reverse polarity_cs (map make_response (zip comments results))
                        else map make_response (zip comments results)), w')"
    using assms by (simp add: analyze_comments_sentiment_def)
  moreover have "length (if sbp then sort_reverse polarity_cs (map make_response (zip comments results))
                 else map make_response (zip comments results))
           = min (length comments) (length results)"
    by (simp add: sort_reverse_def)
  moreover have "\<forall>as. process_outputs statements outputs = Inr as \<longrightarrow>
            length as = min (length statements) (length outputs)"
    by (auto simp add: process_outputs_def dest: length_analyze_pairs)
  ultimately show ?thesis by blast
qed

theorem length_mismatch_truncates_witness:
  "get_all_comments 7 None None (paged_client [[comment_at 1, comment_at 2]])
     = Some (Inr [comment_at 2, comment_at 1])
   \<and> [comment_at 2, comment_at 1] \<noteq> []
   \<and> fixed_scorer [\<lparr>statement = ''a'', polarity = 1/5, sentiment = POSITIVE\<rparr>,
                    \<lparr>statement = ''b'', polarity = 4/5, sentiment = POSITIVE\<rparr>,
                    \<lparr>statement = ''c'', polarity = 0, sentiment = POSITIVE\<rparr>]
        (map text_c [comment_at 2, comment_at 1]) (Some 60) 0
      = (Inr [\<lparr>statement = ''a'', polarity = 1/5, sentiment = POSITIVE\<rparr>,
              \<lparr>statement = ''b'', polarity = 4/5, sentiment = POSITIVE\<rparr>,
              \<lparr>statement = ''c'', polarity = 0, sentiment = POSITIVE\<rparr>], 1)
   \<and> analyze_comments_sentiment 7 None None True (paged_client [[comment_at 1, comment_at 2]])
        (fixed_scorer [\<lparr>statement = ''a'', polarity = 1/5, sentiment = POSITIVE\<rparr>,
                       \<lparr>statement = ''b'', polarity = 4/5, sentiment = POSITIVE\<rparr>,
                       \<lparr>statement = ''c'', polarity = 0, sentiment = POSITIVE\<rparr>]) 0
      = Some (Inr [\<lparr>comment_id = 1, comment = ''text'', polarity_cs = 4/5,
                    classification = ''positive''\<rparr>,
                   \<lparr>comment_id = 2, comment = ''text'', polarity_cs = 1/5,
                    classification = ''positive''\<rparr>], 1)
   \<and> process_outputs [''x'', ''y''] [scores_of (1/2) (1/4) (1/4)]
      = Inr [\<lparr>statement = ''x'', polarity = 1/4, sentiment = POSITIVE\<rparr>]"
proof -
  let ?bs = "[[comment_at 1, comment_at 2]]"
  let ?results = "[\<lparr>statement = ''a'', polarity = 1/5, sentiment = POSITIVE\<rparr>,
                   \<lparr>statement = ''b'', polarity = 4/5, sentiment = POSITIVE\<rparr>,
                   \<lparr>statement = ''c'', polarity = 0, sentiment = POSITIVE\<rparr>]"
  have "fetched (get_subfeddit_comments (paged_client ?bs) 7) 0 ?bs"
    by (rule fetched_one_page) (simp add: QUERY_BATCH_SIZE_def)
  then have "get_all_comments 7 None None (paged_client ?bs)
      = Some (Inr (merge_window None None ?bs))"
    by (rule get_all_comments_fetched)
  moreover have "merge_window None None ?bs = [comment_at 2, comment_at 1]"
    by (simp add: merge_window_def merge_batch_def sort_reverse_def in_range_def
        comment_at_def QUERY_LIMIT_def)
  ultimately have g: "get_all_comments 7 None None (paged_client ?bs)
      = Some (Inr [comment_at 2, comment_at 1])"
    by simp
  have n: "[comment_at 2, comment_at 1] \<noteq> []" by simp
  have sc: "fixed_scorer ?results (map text_c [comment_at 2, comment_at 1]) (Some 60) 0
      = (Inr ?results, 1)"
    by (simp add: fixed_scorer_def)
  have po: "process_outputs [''x'', ''y''] [scores_of (1/2) (1/4) (1/4)]
      = Inr [\<lparr>statement = ''x'', polarity = 1/4, sentiment = POSITIVE\<rparr>]"
    by (simp add: process_outputs_def analyze_output_scores_of)
  note t = length_mismatch_truncates [where scorer = "fixed_scorer ?results" and sbp = True
      and statements = "[''x'', ''y'']" and outputs = "[scores_of (1/2) (1/4) (1/4)]",
      OF g n sc]
  have srt: "sort_reverse polarity_cs (map make_response (zip [comment_at 2, comment_at 1] ?results))
      = [\<lparr>comment_id = 1, comment = ''text'', polarity_cs = 4/5, classification = ''positive''\<rparr>,
         \<lparr>comment_id = 2, comment = ''text'', polarity_cs = 1/5, classification = ''positive''\<rparr>]"
    by (simp add: sort_reverse_def make_response_def comment_at_def)
  have a: "analyze_comments_sentiment 7 None None True (paged_client ?bs) (fixed_scorer ?results) 0
      = Some (Inr [\<lparr>comment_id = 1, comment = ''text'', polarity_cs = 4/5,
                    classification = ''positive''\<rparr>,
                   \<lparr>comment_id = 2, comment = ''text'', polarity_cs = 1/5,
                    classification = ''positive''\<rparr>], 1)"
    using t by (simp only: srt if_True)
  from g n sc a po show ?thesis by blast
qed

section \<open>Properties of the label validation\<close>







section \<open>Properties of the title cache\<close>

text \<open>Deleting a key from a list with one entry for a key removes at most one entry.\<close>

lemma length_delete_distinct:
  "distinct (map fst al) \<Longrightarrow> length al \<le> Suc (length (AList.delete k al))"
proof (induction al)
  case Nil
  then show ?case by simp
next
  case (Cons a al)
  obtain k' v where a: "a = (k', v)" by (cases a)
  show ?case
  proof (cases "k' = k")
    case True
    with Cons.prems a have "k \<notin> fst ` set al" by simp
    then have "AList.delete k al = al" by (rule AList.delete_id)
    with True a show ?thesis by simp
  next
    case False
    with Cons a show ?thesis by simp
  qed
qed

lemma delete_append: "AList.delete k (xs @ ys) = AList.delete k xs @ AList.delete k ys"
  by (simp add: AList.delete_eq)

lemma newest_append: "CACHE_MAX_SIZE \<le> length ys \<Longrightarrow> newest (xs @ ys) = newest ys"
  by (simp add: newest_def)

lemma newest_id: "length es \<le> CACHE_MAX_SIZE \<Longrightarrow> newest es = es"
  by (simp add: newest_def)

lemma length_newest: "length (newest es) \<le> CACHE_MAX_SIZE"
  by (simp add: newest_def)

lemma newest_delete_newest:
  assumes "distinct (map fst es)"
  shows "newest (AList.delete k (newest es) @ [e]) = newest (AList.delete k es @ [e])"
proof (cases "length es \<le> CACHE_MAX_SIZE")
  case True
  then show ?thesis by (simp add: newest_id)
next
  case False
  let ?n = "length es - CACHE_MAX_SIZE"
  let ?D = "take ?n es" and ?R = "drop ?n es"
  have es: "es = ?D @ ?R" by simp
  have lenR: "length ?R = CACHE_MAX_SIZE" using False by simp
  have dR: "distinct (map fst ?R)"
    using assms by (simp add: distinct_drop flip: drop_map)
  have R: "newest es = ?R" by (simp add: newest_def)
  have "CACHE_MAX_SIZE \<le> length (AList.delete k ?R @ [e])"
    using length_delete_distinct [OF dR, of k] lenR by simp
  then have "newest (AList.delete k ?D @ (AList.delete k ?R @ [e]))
      = newest (AList.delete k ?R @ [e])"
    by (rule newest_append)
  moreover have "AList.delete k es = AList.delete k ?D @ AList.delete k ?R"
    by (subst es) (simp only: delete_append)
  ultimately show ?thesis by (simp add: R)
qed


lemma fst_entry: "fst (entry s) = title s"
  by (simp add: entry_def)

lemma store_all_snoc:
  "store_all c (ss @ [s]) = cache_setitem (store_all c ss) (title s) (id_s s)"
  by (simp add: store_all_def)

lemma store_all_append: "store_all c (ss @ ts) = store_all (store_all c ss) ts"
  by (simp add: store_all_def)

lemma store_all_Cons:
  "store_all c (s # ss) = store_all (cache_setitem c (title s) (id_s s)) ss"
  by (simp add: store_all_def)

lemma store_all_distinct:
  assumes "cache_ok c" and "distinct (map title ss)"
  shows "store_all c ss = newest (filter (\<lambda>e. fst e \<notin> title ` set ss) c @ map entry ss)"
  using assms(2)
proof (induction ss rule: rev_induct)
  case Nil
  from assms(1) show ?case by (simp add: store_all_def cache_ok_def newest_id)
next
  case (snoc s ss)
  let ?A = "filter (\<lambda>e. fst e \<notin> title ` set ss) c"
  let ?M = "map entry ss"
  let ?k = "title s"
  from snoc.prems have d: "distinct (map title ss)" and k: "?k \<notin> title ` set ss"
    by simp_all
  have dA: "distinct (map fst ?A)"
    using assms(1) by (simp add: cache_ok_def distinct_map_filter)
  have dM: "distinct (map fst ?M)"
    using d by (simp add: fst_entry o_def)
  have "set (map fst ?A) \<inter> set (map fst ?M) = {}"
    by (auto simp add: fst_entry image_iff)
  with dA dM have dAM: "distinct (map fst (?A @ ?M))"
    by (simp only: map_append distinct_append)
  have delM: "AList.delete ?k ?M = ?M"
    by (rule AList.delete_id) (use k in \<open>simp add: image_image fst_entry\<close>)
  have delA: "AList.delete ?k ?A = filter (\<lambda>e. fst e \<notin> title ` set (ss @ [s])) c"
    by (auto simp add: AList.delete_eq intro!: filter_cong)
  have e: "(title s, id_s s) = entry s"
    by (simp add: entry_def)
  have "store_all c (ss @ [s]) = newest (AList.delete ?k (newest (?A @ ?M)) @ [entry s])"
    by (simp only: store_all_snoc snoc.IH [OF d] cache_setitem_def e)
  also have "\<dots> = newest (AList.delete ?k (?A @ ?M) @ [entry s])"
    using dAM by (rule newest_delete_newest)
  also have "\<dots> = newest (filter (\<lambda>e. fst e \<notin> title ` set (ss @ [s])) c @ map entry (ss @ [s]))"
    by (simp only: delete_append delM delA map_append list.map append_assoc)
  finally show ?case .
qed

lemma store_all_present:
  assumes "cache_ok c" and "distinct (map title ss)" and "length ss \<le> CACHE_MAX_SIZE"
    and "s \<in> set ss"
  shows "map_of (store_all c ss) (title s) = Some (id_s s)"
proof -
  let ?A = "filter (\<lambda>e. fst e \<notin> title ` set ss) c"
  let ?M = "map entry ss"
  let ?n = "length (?A @ ?M) - CACHE_MAX_SIZE"
  have n: "?n \<le> length ?A" using assms(3) by simp
  have "store_all c ss = drop ?n (?A @ ?M)"
    using assms(1,2) by (simp only: store_all_distinct newest_def)
  also have "\<dots> = drop ?n ?A @ ?M"
    using n by simp
  finally have eq: "store_all c ss = drop ?n ?A @ ?M" .
  have "title s \<notin> fst ` set ?A"
    using assms(4) by auto
  moreover have "set (drop ?n ?A) \<subseteq> set ?A"
    by (rule set_drop_subset)
  ultimately have "title s \<notin> fst ` set (drop ?n ?A)"
    by blast
  then have none: "map_of (drop ?n ?A) (title s) = None"
    by (simp add: map_of_eq_None_iff)
  have "distinct (map fst ?M)"
    using assms(2) by (simp add: fst_entry o_def)
  moreover have "(title s, id_s s) \<in> set ?M"
    using assms(4) by (auto simp add: entry_def image_iff)
  ultimately have "map_of ?M (title s) = Some (id_s s)"
    by (simp only: map_of_eq_Some_iff)
  with none show ?thesis
    by (simp add: eq map_add_def)
qed

lemma scan_batch_absent:
  "t \<notin> title ` set b \<Longrightarrow> scan_batch t b c = (None, store_all c b)"
  by (induction b arbitrary: c) (auto simp add: store_all_Cons Let_def store_all_def)

lemma search_subfeddits_fetched:
  "fetched (get_subfeddits client) skip bs \<Longrightarrow> t \<notin> title ` set (concat bs) \<Longrightarrow>
     search_subfeddits client t skip c
       = Some (Inl (HTTPException 404 (not_found_detail t)), store_all c (concat bs))"
proof (induction bs arbitrary: skip c)
  case Nil
  then show ?case by simp
next
  case (Cons b bs)
  from Cons.prems have b: "get_subfeddits client skip QUERY_BATCH_SIZE = Inr b"
    and t: "t \<notin> title ` set b" and ts: "t \<notin> title ` set (concat bs)"
    by auto
  note sb = scan_batch_absent [OF t]
  show ?case
  proof (cases "length b < QUERY_BATCH_SIZE")
    case True
    with Cons.prems have "bs = []" by simp
    with b True sb show ?thesis
      by (subst search_subfeddits.simps) simp
  next
    case False
    with Cons.prems have "fetched (get_subfeddits client) (skip + QUERY_BATCH_SIZE) bs"
      by simp
    from Cons.IH [OF this ts] b False sb show ?thesis
      by (subst search_subfeddits.simps) (simp add: store_all_append)
  qed
qed

lemma cache_delitem_absent: "\<not> cache_contains c t \<Longrightarrow> cache_delitem c t = c"
  by (simp add: cache_contains_def cache_delitem_def map_of_eq_None_iff)

lemma get_subfeddit_id_not_found:
  assumes "fetched (get_subfeddits client) 0 bs"
    and "t \<notin> title ` set (concat bs)"
    and "\<forall>i. map_of c t = Some i \<longrightarrow> get_subfeddit_info client i = Inl FedditNotFoundError"
  shows "get_subfeddit_id t client c
       = Some (Inl (HTTPException 404 (not_found_detail t)),
               store_all (cache_delitem c t) (concat bs))"
proof (cases "cache_contains c t")
  case True
  then obtain i where i: "map_of c t = Some i"
    by (auto simp add: cache_contains_def)
  with assms(3) have "get_subfeddit_info client i = Inl FedditNotFoundError" by simp
  with True i show ?thesis
    by (simp add: get_subfeddit_id_def cache_getitem_def
        search_subfeddits_fetched [OF assms(1,2)])
next
  case False
  then show ?thesis
    by (simp add: get_subfeddit_id_def cache_delitem_absent
        search_subfeddits_fetched [OF assms(1,2)])
qed

lemma cache_ok_delitem: "cache_ok c \<Longrightarrow> cache_ok (cache_delitem c t)"
  unfolding cache_ok_def cache_delitem_def
  using AList.length_delete_le [of t c] by (simp add: AList.distinct_delete)


lemma title_subfeddit_at: "title (subfeddit_at i) = replicate (Suc i) (CHR ''a'')"
  by (simp add: subfeddit_at_def)

lemma title_subfeddit_at_inj: "title (subfeddit_at i) = title (subfeddit_at j) \<longleftrightarrow> i = j"
proof
  assume "title (subfeddit_at i) = title (subfeddit_at j)"
  then have "length (title (subfeddit_at i)) = length (title (subfeddit_at j))"
    by simp
  then show "i = j" by (simp add: title_subfeddit_at)
qed simp

lemma b_not_a_title: "''b'' \<noteq> title (subfeddit_at i)"
  by (simp add: title_subfeddit_at)

lemma distinct_titles_upt: "distinct (map title (map subfeddit_at [m..<n]))"
  by (simp add: distinct_map inj_on_def title_subfeddit_at_inj)

lemma many_subfeddits_evicted:
  "store_all [] many_subfeddits = map entry (drop 1 many_subfeddits)"
proof -
  have ok: "cache_ok []"
    by (simp add: cache_ok_def)
  have d: "distinct (map title many_subfeddits)"
    unfolding many_subfeddits_def by (rule distinct_titles_upt)
  have "store_all [] many_subfeddits = newest (map entry many_subfeddits)"
    using store_all_distinct [OF ok d] by simp
  also have "\<dots> = map entry (drop 1 many_subfeddits)"
    by (simp add: newest_def many_subfeddits_def CACHE_MAX_SIZE_def drop_map)
  finally show ?thesis .
qed

text \<open>
  C10 (as the code has it). The service lists 1001 subfeddits with distinct titles in
  one batch, none with the requested title, and the cache is empty. The search raises
  the 404; the cache then holds the last 1000 pairs, and the pair of the first
  subfeddit of the batch has been evicted.
\<close>

theorem evicted_pair_counterexample:
  "get_subfeddit_id ''b'' (subfeddits_client [many_subfeddits]) []
     = Some (Inl (HTTPException 404 (not_found_detail ''b'')),
             map entry (drop 1 many_subfeddits))
   \<and> subfeddit_at 0 \<in> set many_subfeddits
   \<and> map_of (map entry (drop 1 many_subfeddits)) (title (subfeddit_at 0)) = None"
proof -
  have f: "fetched (get_subfeddits (subfeddits_client [many_subfeddits])) 0 [many_subfeddits]"
    by (simp add: subfeddits_client_def many_subfeddits_def QUERY_BATCH_SIZE_def)
  have t: "''b'' \<notin> title ` set (concat [many_subfeddits])"
    using b_not_a_title by (auto simp add: many_subfeddits_def)
  have "get_subfeddit_id ''b'' (subfeddits_client [many_subfeddits]) []
     = Some (Inl (HTTPException 404 (not_found_detail ''b'')),
             store_all (cache_delitem [] ''b'') (concat [many_subfeddits]))"
    by (rule get_subfeddit_id_not_found [OF f t]) simp
  then have 1: "get_subfeddit_id ''b'' (subfeddits_client [many_subfeddits]) []
     = Some (Inl (HTTPException 404 (not_found_detail ''b'')),
             map entry (drop 1 many_subfeddits))"
    by (simp add: cache_delitem_def many_subfeddits_evicted)
  have 2: "subfeddit_at 0 \<in> set many_subfeddits"
    by (simp add: many_subfeddits_def)
  have "drop 1 many_subfeddits = map subfeddit_at [1..<1001]"
    by (simp add: many_subfeddits_def drop_map)
  then have "title (subfeddit_at 0) \<notin> fst ` set (map entry (drop 1 many_subfeddits))"
    by (auto simp add: fst_entry title_subfeddit_at_inj)
  then have 3: "map_of (map entry (drop 1 many_subfeddits)) (title (subfeddit_at 0)) = None"
    by (rule map_of_eq_None_iff [THEN iffD2])
  from 1 2 3 show ?thesis by blast
qed

text \<open>
  C10, amended. When the requested title is in none of the batches the client serves
  (and a cached id for it, if any, is reported as not found), \<open>get_subfeddit_id\<close>
  raises the 404 and the cache is not rolled back: it is the cache after storing, in
  order, the pair of every subfeddit of every fetched batch. The cache keeps at most
  1000 entries, so a pair stored early can be evicted or replaced before the search
  ends; when the fetched batches hold at most 1000 subfeddits with distinct titles,
  every one of their pairs is in the cache at the end.
\<close>

theorem failed_search_keeps_stores:
  assumes "fetched (get_subfeddits client) 0 bs"
    and "t \<notin> title ` set (concat bs)"
    and "\<forall>i. map_of c t = Some i \<longrightarrow> get_subfeddit_info client i = Inl FedditNotFoundError"
    and "cache_ok c"
  shows "get_subfeddit_id t client c
           = Some (Inl (HTTPException 404 (not_found_detail t)),
                   store_all (cache_delitem c t) (concat bs))
       \<and> (distinct (map title (concat bs)) \<and> length (concat bs) \<le> CACHE_MAX_SIZE \<longrightarrow>
            (\<forall>s \<in> set (concat bs).
               map_of (store_all (cache_delitem c t) (concat bs)) (title s) = Some (id_s s)))"
  using get_subfeddit_id_not_found [OF assms(1,2,3)]
    store_all_present [OF cache_ok_delitem [OF assms(4)], of "concat bs" _ t]
  by blast

theorem failed_search_keeps_stores_witness:
  "fetched (get_subfeddits (subfeddits_client [[subfeddit_at 0, subfeddit_at 1]])) 0
     [[subfeddit_at 0, subfeddit_at 1]]
   \<and> ''b'' \<notin> title ` set (concat [[subfeddit_at 0, subfeddit_at 1]])
   \<and> map_of [(''b'', 5::int)] ''b'' = Some 5
   \<and> get_subfeddit_info (subfeddits_client [[subfeddit_at 0, subfeddit_at 1]]) 5
       = Inl FedditNotFoundError
   \<and> cache_ok [(''b'', 5)]
   \<and> distinct (map title (concat [[subfeddit_at 0, subfeddit_at 1]]))
   \<and> length (concat [[subfeddit_at 0, subfeddit_at 1]]) \<le> CACHE_MAX_SIZE
   \<and> get_subfeddit_id ''b'' (subfeddits_client [[subfeddit_at 0, subfeddit_at 1]]) [(''b'', 5)]
       = Some (Inl (HTTPException 404 (not_found_detail ''b'')), [(''a'', 0), (''aa'', 1)])
   \<and> map_of [(''a'', 0), (''aa'', 1)] (title (subfeddit_at 1)) = Some (id_s (subfeddit_at 1))"
proof -
  let ?bs = "[[subfeddit_at 0, subfeddit_at 1]]"
  let ?client = "subfeddits_client ?bs"
  have f: "fetched (get_subfeddits ?client) 0 ?bs"
    by (simp add: subfeddits_client_def QUERY_BATCH_SIZE_def)
  have t: "''b'' \<notin> title ` set (concat ?bs)"
    by (simp add: title_subfeddit_at)
  have m: "map_of [(''b'', 5::int)] ''b'' = Some 5"
    by simp
  have i: "get_subfeddit_info ?client 5 = Inl FedditNotFoundError"
    by (simp add: subfeddits_client_def)
  have st: "\<forall>i. map_of [(''b'', 5::int)] ''b'' = Some i \<longrightarrow>
      get_subfeddit_info ?client i = Inl FedditNotFoundError"
    by (simp add: subfeddits_client_def)
  have ok: "cache_ok [(''b'', 5)]"
    by (simp add: cache_ok_def CACHE_MAX_SIZE_def)
  have d: "distinct (map title (concat ?bs))"
    by (simp add: title_subfeddit_at)
  have l: "length (concat ?bs) \<le> CACHE_MAX_SIZE"
    by (simp add: CACHE_MAX_SIZE_def)
  have c': "store_all (cache_delitem [(''b'', 5)] ''b'') (concat ?bs) = [(''a'', 0), (''aa'', 1)]"
    by (simp add: store_all_def cache_setitem_def cache_delitem_def newest_def
        CACHE_MAX_SIZE_def subfeddit_at_def)
  note th = failed_search_keeps_stores [OF f t st ok]
  have r: "get_subfeddit_id ''b'' ?client [(''b'', 5)]
       = Some (Inl (HTTPException 404 (not_found_detail ''b'')), [(''a'', 0), (''aa'', 1)])"
    using th by (simp only: c')
  have "subfeddit_at 1 \<in> set (concat ?bs)" by simp
  with th d l have "map_of (store_all (cache_delitem [(''b'', 5)] ''b'') (concat ?bs))
      (title (subfeddit_at 1)) = Some (id_s (subfeddit_at 1))"
    by blast
  then have p: "map_of [(''a'', 0), (''aa'', 1)] (title (subfeddit_at 1))
      = Some (id_s (subfeddit_at 1))"
    by (simp only: c')
  from f t m i ok d l r p show ?thesis by blast
qed

end
